theory Spec2Isabelle
  imports Complex_Main
begin

section \<open>JavaScript values and string primitives\<close>

text \<open>
  Text is a list of 8-bit characters (code points below 256). The values that
  \<^verbatim>\<open>JSON.parse\<close> can return are a datatype; reading a property of \<^verbatim>\<open>null\<close> throws a
  TypeError, reading a property that is not there gives \<^verbatim>\<open>undefined\<close>. The model of
  property access is for the two names the source reads, \<^verbatim>\<open>conversationId\<close> and
  \<^verbatim>\<open>error\<close>, which no string, number, boolean or array has.
\<close>

datatype jsval =
    JNull
  | JBool bool
  | JNum rat
  | JStr string
  | JArr "jsval list"
  | JObj "(string \<times> jsval) list"

datatype prop_result = TypeError | Undefined | Prop jsval

fun get_prop :: "jsval \<Rightarrow> string \<Rightarrow> prop_result" where
  "get_prop JNull k = TypeError"
| "get_prop (JObj kvs) k = (case map_of (rev kvs) k of None \<Rightarrow> Undefined | Some v \<Rightarrow> Prop v)"
| "get_prop (JBool b) k = Undefined"
| "get_prop (JNum n) k = Undefined"
| "get_prop (JStr s) k = Undefined"
| "get_prop (JArr vs) k = Undefined"

fun truthy :: "jsval \<Rightarrow> bool" where
  "truthy JNull = False"
| "truthy (JBool b) = b"
| "truthy (JNum n) = (n \<noteq> 0)"
| "truthy (JStr s) = (s \<noteq> [])"
| "truthy (JArr vs) = True"
| "truthy (JObj kvs) = True"

definition startsWith :: "string \<Rightarrow> string \<Rightarrow> bool" where
  "startsWith s p = (take (length p) s = p)"

definition slice :: "string \<Rightarrow> nat \<Rightarrow> string" where
  "slice s n = drop n s"

definition is_space :: "char \<Rightarrow> bool" where
  \<comment> \<open>tab, LF, VT, FF, CR, space, NBSP: what \<^verbatim>\<open>trim\<close> strips, below code point 256\<close>
  "is_space c = (c \<in> {CHR 0x09, CHR 0x0A, CHR 0x0B, CHR 0x0C, CHR 0x0D, CHR 0x20, CHR 0xA0})"

definition trim :: "string \<Rightarrow> string" where
  "trim s = rev (dropWhile is_space (rev (dropWhile is_space s)))"

fun split_on :: "char \<Rightarrow> string \<Rightarrow> string list" where
  \<comment> \<open>\<^verbatim>\<open>s.split(c)\<close> for a one-character separator: always at least one piece\<close>
  "split_on c [] = [[]]"
| "split_on c (x # xs) =
     (if x = c then [] # split_on c xs
      else (case split_on c xs of p # ps \<Rightarrow> (x # p) # ps | [] \<Rightarrow> [[x]]))"

fun replace2 :: "char \<Rightarrow> char \<Rightarrow> char \<Rightarrow> string \<Rightarrow> string" where
  \<comment> \<open>\<^verbatim>\<open>s.replace(/ab/g, c)\<close> for a two-character pattern: leftmost matches, not overlapping\<close>
  "replace2 a b c (x # y # zs) =
     (if x = a \<and> y = b then c # replace2 a b c zs else x # replace2 a b c (y # zs))"
| "replace2 a b c zs = zs"

definition digit :: "nat \<Rightarrow> char" where
  "digit n = ''0123456789'' ! n"

function decimal :: "nat \<Rightarrow> string" where
  "decimal n = (if n < 10 then [digit n] else decimal (n div 10) @ [digit (n mod 10)])"
  by pat_completeness auto
termination
  by (relation "measure id") auto

declare decimal.simps [simp del]

text \<open>
  The parts of the JavaScript runtime the source calls and this theory does not define:
  \<^verbatim>\<open>JSON.parse\<close> (\<open>None\<close> when it throws a SyntaxError), the conversion of a value to the
  message of \<^verbatim>\<open>new Error(v)\<close>, and the message of the TypeError for a property of
  \<^verbatim>\<open>null\<close>. Every theorem about the transport holds for any such runtime.
\<close>

record js_runtime =
  JSON_parse :: "string \<Rightarrow> jsval option"
  String_of :: "jsval \<Rightarrow> string"
  null_property_message :: string

section \<open>The chat stream: \<^verbatim>\<open>sendChatStreamMessage\<close>\<close>

text \<open>
  A run of \<^verbatim>\<open>sendChatStreamMessage\<close> is observed as the list of callback invocations it
  makes, in order. The callbacks themselves are taken not to throw; the console output
  (\<^verbatim>\<open>console.warn\<close>, \<^verbatim>\<open>console.error\<close>) is not part of the observation.
\<close>

datatype callback = OnInit jsval | OnDelta string | OnComplete | OnError jsval

datatype thrown = ErrorObject string | OtherValue

datatype stream_end = Done | ReadRejects thrown

datatype body = NoBody | Body "string list" stream_end

datatype fetch_result =
    FetchRejects thrown
  | Response nat "jsval option" body
    \<comment> \<open>status; what \<^verbatim>\<open>response.json()\<close> resolves to (\<open>None\<close>: it rejects); the body:
        the decoded text of each chunk \<^verbatim>\<open>reader.read()\<close> delivers, then how the stream ends\<close>

definition ok :: "nat \<Rightarrow> bool" where
  "ok status = (200 \<le> status \<and> status \<le> 299)"

definition handle_init :: "js_runtime \<Rightarrow> string \<Rightarrow> callback list" where
  "handle_init rt data =
     (case JSON_parse rt data of
        None \<Rightarrow> []
      | Some parsed \<Rightarrow>
          (case get_prop parsed ''conversationId'' of
             TypeError \<Rightarrow> []
           | Undefined \<Rightarrow> []
           | Prop v \<Rightarrow> if truthy v then [OnInit v] else []))"

definition handle_error :: "js_runtime \<Rightarrow> string \<Rightarrow> callback list" where
  "handle_error rt data =
     (case JSON_parse rt data of
        None \<Rightarrow> [OnError (JStr data)]
      | Some parsed \<Rightarrow>
          (case get_prop parsed ''error'' of
             TypeError \<Rightarrow> [OnError (JStr data)]
           | Undefined \<Rightarrow> [OnError (JStr ''Unknown error'')]
           | Prop v \<Rightarrow> [OnError (if truthy v then v else JStr ''Unknown error'')]))"

definition handle_delta :: "string \<Rightarrow> callback list" where
  "handle_delta data =
     [OnDelta (replace2 (CHR 0x5C) (CHR ''r'') (CHR 0x0D)
                (replace2 (CHR 0x5C) (CHR ''n'') (CHR 0x0A) data))]"

definition handle_data :: "js_runtime \<Rightarrow> string \<Rightarrow> string \<Rightarrow> callback list" where
  "handle_data rt currentEvent data =
     (if currentEvent = ''init'' then handle_init rt data
      else if currentEvent = ''complete'' then [OnComplete]
      else if currentEvent = ''error'' then handle_error rt data
      else handle_delta data)"

text \<open>
  The body of \<^verbatim>\<open>for (const line of lines)\<close>: the state is \<^verbatim>\<open>currentEvent\<close> and the
  callbacks made so far. The reset of \<^verbatim>\<open>currentEvent\<close> sits, as in the source, inside the
  branch of a line that starts with \<^verbatim>\<open>data: \<close>.
\<close>

definition process_line ::
  "js_runtime \<Rightarrow> string \<times> callback list \<Rightarrow> string \<Rightarrow> string \<times> callback list" where
  "process_line rt st line =
     (case st of (currentEvent, out) \<Rightarrow>
        if startsWith line ''event: '' then (trim (slice line 7), out)
        else if startsWith line ''data: '' then
          (if trim line = [] then [] else currentEvent,
           out @ handle_data rt currentEvent (trim (slice line 6)))
        else (currentEvent, out))"

text \<open>
  One turn of \<^verbatim>\<open>while (true)\<close> for a chunk that \<^verbatim>\<open>reader.read()\<close> delivered: the state
  carried from turn to turn is \<^verbatim>\<open>buffer\<close> (and the callbacks made so far);
  \<^verbatim>\<open>currentEvent\<close> is declared inside the loop body and starts empty on every turn.
\<close>

definition read_chunk ::
  "js_runtime \<Rightarrow> string \<times> callback list \<Rightarrow> string \<Rightarrow> string \<times> callback list" where
  "read_chunk rt st val =
     (case st of (buffer, out) \<Rightarrow>
        let lines = split_on (CHR 0x0A) (buffer @ val)
        in (last lines, snd (foldl (process_line rt) ([], out) (butlast lines))))"

definition read_loop :: "js_runtime \<Rightarrow> string list \<Rightarrow> string \<times> callback list" where
  "read_loop rt chunks = foldl (read_chunk rt) ([], []) chunks"

definition catch_message :: "thrown \<Rightarrow> jsval" where
  "catch_message e =
     (case e of ErrorObject m \<Rightarrow> JStr m | OtherValue \<Rightarrow> JStr ''Error connecting to chat service'')"

text \<open>The \<^verbatim>\<open>try\<close> block: the callbacks it makes, and what it throws, if anything.\<close>

definition try_block :: "js_runtime \<Rightarrow> fetch_result \<Rightarrow> callback list \<times> thrown option" where
  "try_block rt res =
     (case res of
        FetchRejects e \<Rightarrow> ([], Some e)
      | Response status js b \<Rightarrow>
          if \<not> ok status then
            (let errorData = (case js of None \<Rightarrow> JObj [] | Some v \<Rightarrow> v);
                 http = ''HTTP error: '' @ decimal status
             in case get_prop errorData ''error'' of
                  TypeError \<Rightarrow> ([], Some (ErrorObject (null_property_message rt)))
                | Undefined \<Rightarrow> ([], Some (ErrorObject http))
                | Prop v \<Rightarrow> ([], Some (ErrorObject (if truthy v then String_of rt v else http))))
          else
            (case b of
               NoBody \<Rightarrow> ([], Some (ErrorObject ''No response body''))
             | Body chunks e \<Rightarrow>
                 (let out = snd (read_loop rt chunks)
                  in case e of
                       Done \<Rightarrow> (out @ [OnComplete], None)
                     | ReadRejects t \<Rightarrow> (out, Some t))))"

definition sendChatStreamMessage :: "js_runtime \<Rightarrow> fetch_result \<Rightarrow> callback list" where
  "sendChatStreamMessage rt res =
     (case try_block rt res of
        (out, None) \<Rightarrow> out
      | (out, Some e) \<Rightarrow> out @ [OnError (catch_message e)])"

text \<open>
  The \<^verbatim>\<open>catch\<close> clause: the callbacks it makes and what it throws itself, which is
  nothing. What the promise of \<^verbatim>\<open>sendChatStreamMessage\<close> rejects with is what gets past
  that clause.
\<close>

definition catch_block :: "thrown \<Rightarrow> callback list \<times> thrown option" where
  "catch_block e = ([OnError (catch_message e)], None)"

definition rejection :: "js_runtime \<Rightarrow> fetch_result \<Rightarrow> thrown option" where
  "rejection rt res =
     (case try_block rt res of
        (out, None) \<Rightarrow> None
      | (out, Some e) \<Rightarrow> snd (catch_block e))"

text \<open>
  The stream as a text, whatever its chunks: its terminated lines, and the lines that
  set an event name.
\<close>

definition names_event :: "string \<Rightarrow> string \<Rightarrow> bool" where
  "names_event name line = (startsWith line ''event: '' \<and> trim (slice line 7) = name)"

definition stream_lines :: "string list \<Rightarrow> string list" where
  "stream_lines chunks = butlast (split_on (CHR 0x0A) (concat chunks))"



section \<open>The history store: \<^verbatim>\<open>useChatHistory\<close>\<close>

text \<open>
  The backend's answers are values: a page fetch either resolves with a
  \<^verbatim>\<open>PagedMessagesResponse\<close> or rejects. \<^verbatim>\<open>new Date(s)\<close> is a parameter \<open>Date\<close>, the time
  value (milliseconds) of the date a well-formed \<^verbatim>\<open>createdAt\<close> text denotes.
\<close>

datatype MessageType = USER | ASSISTANT

record MessageDto =
  dto_id :: int
  dto_content :: string
  dto_type :: MessageType
  createdAt :: string
  responseTimeMs :: "nat option"

record PagedMessagesResponse =
  r_messages :: "MessageDto list"
  r_page :: nat
  r_size :: nat
  totalElements :: nat
  totalPages :: nat
  hasMore :: bool
  r_conversationId :: string

datatype Sender = Sender_user | Sender_misha

record Message =
  msg_id :: string
  content :: string
  sender :: Sender
  timestamp :: int

definition toString :: "int \<Rightarrow> string" where
  "toString i = (if i < 0 then CHR ''-'' # decimal (nat (- i)) else decimal (nat i))"

definition convertToMessage :: "(string \<Rightarrow> int) \<Rightarrow> MessageDto \<Rightarrow> Message" where
  "convertToMessage Date dto =
     \<lparr> msg_id = toString (dto_id dto),
       content = dto_content dto,
       sender = (if dto_type dto = USER then Sender_user else Sender_misha),
       timestamp = Date (createdAt dto) \<rparr>"

record ChatHistory =
  messages :: "Message list"
  conversationId :: "string option"
  hasMoreMessages :: bool
  isLoadingHistory :: bool
  isLoadingMore :: bool
  currentPage :: nat
  loadedMessageIds :: "string set"

record Options =
  patientId :: "nat option"
  initialPageSize :: nat
  pageSize :: nat

datatype request =
    GetInitialMessages string nat
  | GetMessagesForConversation string nat nat

datatype 'a settled = Resolved 'a | Rejected

text \<open>
  The hook's state. \<^verbatim>\<open>loadedMessageIds\<close> is a ref, the other fields are \<^verbatim>\<open>useState\<close> cells.
  A callback reads the state cells as constants of the render that created it
  (\<^verbatim>\<open>useCallback\<close> with \<^verbatim>\<open>conversationId\<close>, \<^verbatim>\<open>hasMoreMessages\<close>, \<^verbatim>\<open>isLoadingMore\<close>,
  \<^verbatim>\<open>currentPage\<close> as dependencies): that render's state is the argument \<open>snap\<close>. The
  setters, the updater \<^verbatim>\<open>prev => [...newMessages, ...prev]\<close> and the ref act on the state
  of the moment, the argument \<open>cur\<close>. A callback built by a render that has seen all
  updates has \<open>snap = cur\<close>.

  An asynchronous operation is two steps around its \<^verbatim>\<open>await\<close>: \<open>_begin\<close> runs up to the
  fetch and returns the request made, if any; \<open>_settle\<close> runs from the fetch's outcome
  to the end of \<^verbatim>\<open>finally\<close>. The operation run without anything in between is their
  composition.
\<close>

definition initial_state :: ChatHistory where
  "initial_state =
     \<lparr> messages = [], conversationId = None, hasMoreMessages = False,
       isLoadingHistory = False, isLoadingMore = False, currentPage = 0,
       loadedMessageIds = {} \<rparr>"

definition loadInitialMessages_begin ::
  "Options \<Rightarrow> string \<Rightarrow> ChatHistory \<Rightarrow> ChatHistory \<times> request option" where
  "loadInitialMessages_begin opts convId cur =
     (if convId = [] then (cur, None)
      else (cur\<lparr>isLoadingHistory := True, loadedMessageIds := {}\<rparr>,
            Some (GetInitialMessages convId (initialPageSize opts))))"

definition loadInitialMessages_settle ::
  "(string \<Rightarrow> int) \<Rightarrow> string \<Rightarrow> ChatHistory \<Rightarrow> PagedMessagesResponse settled \<Rightarrow> ChatHistory" where
  "loadInitialMessages_settle Date convId cur r =
     (case r of
        Rejected \<Rightarrow> cur\<lparr>isLoadingHistory := False\<rparr>
      | Resolved response \<Rightarrow>
          (let convertedMessages = map (convertToMessage Date) (r_messages response)
           in cur\<lparr>loadedMessageIds := loadedMessageIds cur \<union> set (map msg_id convertedMessages),
                  messages := convertedMessages,
                  hasMoreMessages := hasMore response,
                  currentPage := 0,
                  conversationId := Some convId,
                  isLoadingHistory := False\<rparr>))"

definition loadInitialMessages ::
  "Options \<Rightarrow> (string \<Rightarrow> int) \<Rightarrow> (request \<Rightarrow> PagedMessagesResponse settled) \<Rightarrow>
   string \<Rightarrow> ChatHistory \<Rightarrow> ChatHistory" where
  "loadInitialMessages opts Date api convId cur =
     (case loadInitialMessages_begin opts convId cur of
        (s, None) \<Rightarrow> s
      | (s, Some req) \<Rightarrow> loadInitialMessages_settle Date convId s (api req))"

text \<open>
  The guard \<^verbatim>\<open>!conversationId || !hasMoreMessages || isLoadingMore\<close>, on the values of the
  callback's render; \<^verbatim>\<open>!conversationId\<close> holds of \<^verbatim>\<open>null\<close> and of the empty string.
\<close>

definition returns_early :: "ChatHistory \<Rightarrow> bool" where
  "returns_early snap =
     ((case conversationId snap of None \<Rightarrow> True | Some c \<Rightarrow> c = [])
      \<or> \<not> hasMoreMessages snap \<or> isLoadingMore snap)"

definition loadMoreMessages_begin ::
  "Options \<Rightarrow> ChatHistory \<Rightarrow> ChatHistory \<Rightarrow> ChatHistory \<times> request option" where
  "loadMoreMessages_begin opts snap cur =
     (if returns_early snap then (cur, None)
      else
        (case conversationId snap of
           None \<Rightarrow> (cur, None)
         | Some c \<Rightarrow>
             (cur\<lparr>isLoadingMore := True\<rparr>,
              Some (GetMessagesForConversation c (currentPage snap + 1) (pageSize opts)))))"

definition loadMoreMessages_settle ::
  "(string \<Rightarrow> int) \<Rightarrow> ChatHistory \<Rightarrow> ChatHistory \<Rightarrow> PagedMessagesResponse settled \<Rightarrow> ChatHistory" where
  "loadMoreMessages_settle Date snap cur r =
     (case r of
        Rejected \<Rightarrow> cur\<lparr>isLoadingMore := False\<rparr>
      | Resolved response \<Rightarrow>
          (let newMessages =
                 map (convertToMessage Date)
                   (filter (\<lambda>dto. toString (dto_id dto) \<notin> loadedMessageIds cur) (r_messages response))
           in cur\<lparr>loadedMessageIds := loadedMessageIds cur \<union> set (map msg_id newMessages),
                  messages := newMessages @ messages cur,
                  hasMoreMessages := hasMore response,
                  currentPage := currentPage snap + 1,
                  isLoadingMore := False\<rparr>))"

definition loadMoreMessages ::
  "Options \<Rightarrow> (string \<Rightarrow> int) \<Rightarrow> (request \<Rightarrow> PagedMessagesResponse settled) \<Rightarrow>
   ChatHistory \<Rightarrow> ChatHistory \<Rightarrow> ChatHistory" where
  "loadMoreMessages opts Date api snap cur =
     (case loadMoreMessages_begin opts snap cur of
        (s, None) \<Rightarrow> s
      | (s, Some req) \<Rightarrow> loadMoreMessages_settle Date snap s (api req))"

section \<open>Values for the worked examples\<close>

text \<open>
  A runtime for the worked examples: its \<^verbatim>\<open>JSON.parse\<close> agrees with the real one on every
  text the examples pass to it (the one JSON document below, and texts that are not JSON).
\<close>

definition example_runtime :: js_runtime where
  "example_runtime =
     \<lparr> JSON_parse = (\<lambda>s. if s = ''{\"conversationId\":\"abc\"}''
                          then Some (JObj [(''conversationId'', JStr ''abc'')]) else None),
       String_of = (\<lambda>v. case v of JStr s \<Rightarrow> s | _ \<Rightarrow> []),
       null_property_message = ''Cannot read properties of null'' \<rparr>"

definition example_Date :: "string \<Rightarrow> int" where
  \<comment> \<open>agrees with \<^verbatim>\<open>new Date(s).getTime()\<close> on the two timestamps the examples use\<close>
  "example_Date s =
     (if s = ''2024-05-01T10:00:00Z'' then 1714557600000
      else if s = ''2024-05-01T10:00:01Z'' then 1714557601000
      else 0)"

definition example_dto :: "int \<Rightarrow> string \<Rightarrow> MessageDto" where
  "example_dto i t =
     \<lparr> dto_id = i, dto_content = ''hola'', dto_type = USER, createdAt = t,
       responseTimeMs = None \<rparr>"

definition example_response :: "MessageDto list \<Rightarrow> bool \<Rightarrow> PagedMessagesResponse" where
  "example_response ms older =
     \<lparr> r_messages = ms, r_page = 1, r_size = 20, totalElements = 40, totalPages = 2,
       hasMore = older, r_conversationId = ''c1'' \<rparr>"

definition example_options :: Options where
  "example_options = \<lparr> patientId = Some 1, initialPageSize = 15, pageSize = 20 \<rparr>"

definition example_ready :: ChatHistory where
  \<comment> \<open>a store after an initial load of one message, with older pages left\<close>
  "example_ready =
     \<lparr> messages = [convertToMessage example_Date (example_dto 9 ''2024-05-01T10:00:01Z'')],
       conversationId = Some ''c1'', hasMoreMessages = True,
       isLoadingHistory = False, isLoadingMore = False, currentPage = 0,
       loadedMessageIds = {''9''} \<rparr>"

text \<open>
  A backend that gives every request the same answer.
\<close>

definition answering :: "'a settled \<Rightarrow> request \<Rightarrow> 'a settled" where
  "answering r req = r"

section \<open>The decoding loop: lines and chunks\<close>

lemma split_on_not_Nil: "split_on c s \<noteq> []"
  by (induction s) (auto split: list.splits)

lemma split_on_no_sep: "c \<notin> set t \<Longrightarrow> split_on c t = [t]"
  by (induction t) auto

lemma split_on_append_no_sep:
  "c \<notin> set t \<Longrightarrow> split_on c (s @ t) = butlast (split_on c s) @ [last (split_on c s) @ t]"
proof (induction s)
  case Nil
  then show ?case by (simp add: split_on_no_sep)
next
  case (Cons x s)
  then show ?case
    using split_on_not_Nil [of c s]
    by (cases "split_on c s") (auto split: list.splits)
qed

lemma last_split_on_no_sep: "c \<notin> set (last (split_on c s))"
proof (induction s)
  case Nil
  then show ?case by simp
next
  case (Cons x s)
  then show ?case
    using split_on_not_Nil [of c s]
    by (cases "split_on c s") (auto split: list.splits)
qed

lemma read_chunk_fragment:
  assumes "CHR 0x0A \<notin> set frag"
  shows "read_chunk rt (buffer, out) (val @ frag) =
           (fst (read_chunk rt (buffer, out) val) @ frag, snd (read_chunk rt (buffer, out) val))"
  using split_on_append_no_sep [OF assms, of "buffer @ val"]
  by (simp add: read_chunk_def Let_def)

lemma read_chunk_buffer_no_newline: "CHR 0x0A \<notin> set (fst (read_chunk rt st val))"
  by (cases st) (simp add: read_chunk_def Let_def last_split_on_no_sep)

lemma read_chunk_no_newline:
  assumes "CHR 0x0A \<notin> set buffer" "CHR 0x0A \<notin> set val"
  shows "read_chunk rt (buffer, out) val = (buffer @ val, out)"
  using assms by (simp add: read_chunk_def Let_def split_on_no_sep)

lemma read_loop_snoc: "read_loop rt (chunks @ [c]) = read_chunk rt (read_loop rt chunks) c"
  by (simp add: read_loop_def)

lemma foldl_read_chunk_no_newline:
  "CHR 0x0A \<notin> set buffer \<Longrightarrow> CHR 0x0A \<notin> set (concat tail) \<Longrightarrow>
   foldl (read_chunk rt) (buffer, out) tail = (buffer @ concat tail, out)"
  by (induction tail arbitrary: buffer) (simp_all add: read_chunk_no_newline)

lemma read_loop_unterminated:
  assumes "CHR 0x0A \<notin> set frag" "CHR 0x0A \<notin> set (concat tail)"
  shows "read_loop rt (chunks @ (c @ frag) # tail) =
          (fst (read_loop rt (chunks @ [c])) @ frag @ concat tail, snd (read_loop rt (chunks @ [c])))"
proof -
  obtain b out where st: "read_loop rt chunks = (b, out)" by (cases "read_loop rt chunks")
  have one: "read_chunk rt (b, out) (c @ frag) =
       (fst (read_chunk rt (b, out) c) @ frag, snd (read_chunk rt (b, out) c))"
    by (rule read_chunk_fragment [OF assms(1)])
  have nn: "CHR 0x0A \<notin> set (fst (read_chunk rt (b, out) c) @ frag)"
    using assms(1) read_chunk_buffer_no_newline [of rt "(b, out)" c] by simp
  have "read_loop rt (chunks @ (c @ frag) # tail) =
        foldl (read_chunk rt) (read_chunk rt (b, out) (c @ frag)) tail"
    using st by (simp add: read_loop_def)
  also have "\<dots> = ((fst (read_chunk rt (b, out) c) @ frag) @ concat tail, snd (read_chunk rt (b, out) c))"
    unfolding one by (rule foldl_read_chunk_no_newline [OF nn assms(2)])
  finally show ?thesis using st by (simp add: read_loop_snoc)
qed

lemma sendChat_ok_done:
  "ok status \<Longrightarrow> sendChatStreamMessage rt (Response status js (Body chunks Done)) = snd (read_loop rt chunks) @ [OnComplete]"
  by (simp add: sendChatStreamMessage_def try_block_def Let_def)

lemma sendChat_ok_rejects:
  "ok status \<Longrightarrow> sendChatStreamMessage rt (Response status js (Body chunks (ReadRejects t))) = snd (read_loop rt chunks) @ [OnError (catch_message t)]"
  by (simp add: sendChatStreamMessage_def try_block_def Let_def)

lemma sendChat_not_ok:
  "\<not> ok status \<Longrightarrow> \<exists>m. sendChatStreamMessage rt (Response status js b) = [OnError (JStr m)]"
  by (auto simp add: sendChatStreamMessage_def try_block_def Let_def catch_message_def split: prop_result.splits)

lemma is_space_d: "\<not> is_space (CHR ''d'')" by (simp add: is_space_def)

lemma trim_data_line: "startsWith line ''data: '' \<Longrightarrow> trim line \<noteq> []"
proof -
  assume "startsWith line ''data: ''"
  then obtain r where "line = ''data: '' @ r" 
    by (metis startsWith_def append_take_drop_id)
  then show ?thesis by (simp add: trim_def is_space_def)
qed

lemma process_line_event:
  "fst (process_line rt (ev, out) line) = (if startsWith line ''event: '' then trim (slice line 7) else ev)"
  by (simp add: process_line_def trim_data_line)

lemma split_on_append_sep: "split_on c (s @ c # t) = split_on c s @ split_on c t"
proof (induction s)
  case Nil
  then show ?case by simp
next
  case (Cons x s)
  then show ?case
    using split_on_not_Nil [of c s]
    by (cases "split_on c s") auto
qed

lemma last_split_on_snoc_sep: "last (split_on c (s @ [c])) = []"
  by (simp add: split_on_append_sep)

lemma read_chunk_newline_end:
  "fst (read_chunk rt (buffer, out) (c @ [CHR 0x0A])) = []"
  using last_split_on_snoc_sep [of "CHR 0x0A" "buffer @ c"]
  by (simp add: read_chunk_def Let_def)

lemma process_line_empty: "process_line rt (ev, out) [] = (ev, out)"
  by (simp add: process_line_def startsWith_def)

lemma split_on_append:
  "split_on c (s @ t) = butlast (split_on c s) @ split_on c (last (split_on c s) @ t)"
proof (cases "c \<in> set s")
  case False
  then show ?thesis by (simp add: split_on_no_sep)
next
  case True
  then obtain s1 s2 where s: "s = s1 @ c # s2" and n: "c \<notin> set s2"
    by (auto dest: split_list_last)
  have "split_on c s = split_on c s1 @ [s2]"
    using n by (simp add: s split_on_append_sep split_on_no_sep)
  moreover have "split_on c (s @ t) = split_on c s1 @ split_on c (s2 @ t)"
    by (simp add: s split_on_append_sep)
  ultimately show ?thesis by (simp add: butlast_append)
qed

lemma buffer_is_last_piece:
  "fst (read_loop rt chunks) = last (split_on (CHR 0x0A) (concat chunks))"
proof (induction chunks rule: rev_induct)
  case Nil
  then show ?case by (simp add: read_loop_def)
next
  case (snoc c chunks)
  obtain b out where st: "read_loop rt chunks = (b, out)" by (cases "read_loop rt chunks")
  have "fst (read_loop rt (chunks @ [c])) = last (split_on (CHR 0x0A) (b @ c))"
    by (simp add: read_loop_snoc st read_chunk_def Let_def)
  also have "\<dots> = last (split_on (CHR 0x0A) (concat chunks @ c))"
    using snoc st split_on_append [of "CHR 0x0A" "concat chunks" c]
      split_on_not_Nil [of "CHR 0x0A" "b @ c"]
    by simp
  finally show ?case by simp
qed

lemma stream_lines_snoc:
  "stream_lines (chunks @ [c]) =
     stream_lines chunks @ butlast (split_on (CHR 0x0A) (fst (read_loop rt chunks) @ c))"
  using split_on_append [of "CHR 0x0A" "concat chunks" c]
    split_on_not_Nil [of "CHR 0x0A" "last (split_on (CHR 0x0A) (concat chunks)) @ c"]
  by (simp add: stream_lines_def buffer_is_last_piece butlast_append)

lemma handle_data_complete_only:
  "currentEvent \<noteq> ''complete'' \<Longrightarrow> OnComplete \<notin> set (handle_data rt currentEvent data)"
  by (auto simp add: handle_data_def handle_init_def handle_error_def handle_delta_def
      split: option.splits prop_result.splits)

lemma process_line_no_complete:
  assumes "ev \<noteq> ''complete''" and "\<not> names_event ''complete'' line" and "OnComplete \<notin> set out"
  shows "fst (process_line rt (ev, out) line) \<noteq> ''complete''
         \<and> OnComplete \<notin> set (snd (process_line rt (ev, out) line))"
  using assms handle_data_complete_only [of ev rt "trim (slice line 6)"]
  by (auto simp add: process_line_def names_event_def)

lemma foldl_process_line_no_complete:
  assumes "\<forall>line \<in> set ls. \<not> names_event ''complete'' line"
    and "ev \<noteq> ''complete''" and "OnComplete \<notin> set out"
  shows "OnComplete \<notin> set (snd (foldl (process_line rt) (ev, out) ls))"
  using assms
proof (induction ls arbitrary: ev out)
  case Nil
  then show ?case by simp
next
  case (Cons l ls)
  obtain ev' out' where p: "process_line rt (ev, out) l = (ev', out')"
    by (cases "process_line rt (ev, out) l")
  have "ev' \<noteq> ''complete'' \<and> OnComplete \<notin> set out'"
    using process_line_no_complete [of ev l out rt] Cons.prems p by simp
  then show ?case using Cons p by simp
qed

lemma read_loop_no_complete:
  assumes "\<forall>line \<in> set (stream_lines chunks). \<not> names_event ''complete'' line"
  shows "OnComplete \<notin> set (snd (read_loop rt chunks))"
  using assms
proof (induction chunks rule: rev_induct)
  case Nil
  then show ?case by (simp add: read_loop_def)
next
  case (snoc c chunks)
  obtain b out where st: "read_loop rt chunks = (b, out)" by (cases "read_loop rt chunks")
  have l: "stream_lines (chunks @ [c]) = stream_lines chunks @ butlast (split_on (CHR 0x0A) (b @ c))"
    using stream_lines_snoc [of chunks c rt] st by simp
  have "OnComplete \<notin> set out"
    using snoc l st by simp
  moreover have "\<forall>line \<in> set (butlast (split_on (CHR 0x0A) (b @ c))). \<not> names_event ''complete'' line"
    using snoc.prems l by simp
  ultimately have "OnComplete \<notin> set (snd (foldl (process_line rt) ([], out) (butlast (split_on (CHR 0x0A) (b @ c)))))"
    by (intro foldl_process_line_no_complete) simp_all
  then show ?case
    by (simp add: read_loop_snoc st read_chunk_def Let_def)
qed

lemma sendChat_catch:
  "sendChatStreamMessage rt res =
     (case try_block rt res of
        (out, None) \<Rightarrow> out
      | (out, Some e) \<Rightarrow> out @ fst (catch_block e))"
  by (simp add: sendChatStreamMessage_def catch_block_def split: prod.splits option.splits)

lemma process_line_grows: "set out \<subseteq> set (snd (process_line rt (ev, out) line))"
  by (simp add: process_line_def)

lemma foldl_process_line_grows:
  "set out \<subseteq> set (snd (foldl (process_line rt) (ev, out) ls))"
proof (induction ls arbitrary: ev out)
  case Nil
  then show ?case by simp
next
  case (Cons l ls)
  obtain ev' out' where p: "process_line rt (ev, out) l = (ev', out')"
    by (cases "process_line rt (ev, out) l")
  have "set out \<subseteq> set out'" using process_line_grows [of out rt ev l] p by simp
  then show ?case using Cons.IH [where ev = ev' and out = out'] p by auto
qed

lemma read_chunk_grows: "set out \<subseteq> set (snd (read_chunk rt (b, out) val))"
  by (simp add: read_chunk_def Let_def foldl_process_line_grows)

lemma foldl_read_chunk_grows:
  "set (snd st) \<subseteq> set (snd (foldl (read_chunk rt) st chunks))"
proof (induction chunks arbitrary: st)
  case Nil
  then show ?case by simp
next
  case (Cons c chunks)
  have "set (snd st) \<subseteq> set (snd (read_chunk rt st c))"
    using read_chunk_grows [of "snd st" rt "fst st" c] by simp
  then show ?case using Cons.IH [where st = "read_chunk rt st c"] by auto
qed

lemma data_line_not_event: "startsWith line ''data: '' \<Longrightarrow> \<not> startsWith line ''event: ''"
proof -
  assume "startsWith line ''data: ''"
  then obtain r where "line = ''data: '' @ r"
    by (metis startsWith_def append_take_drop_id)
  then show ?thesis by (simp add: startsWith_def)
qed

lemma event_then_data:
  assumes "names_event name eline" and "startsWith dline ''data: ''"
  shows "set (handle_data rt name (trim (slice dline 6)))
           \<subseteq> set (snd (foldl (process_line rt) (ev, out) (ls @ eline # dline # ls')))"
proof -
  obtain ev1 out1 where a: "foldl (process_line rt) (ev, out) ls = (ev1, out1)"
    by (cases "foldl (process_line rt) (ev, out) ls")
  have e: "process_line rt (ev1, out1) eline = (name, out1)"
    using assms(1) by (simp add: process_line_def names_event_def)
  obtain ev2 where d: "process_line rt (name, out1) dline
      = (ev2, out1 @ handle_data rt name (trim (slice dline 6)))"
    using assms(2) data_line_not_event [OF assms(2)] by (simp add: process_line_def)
  have "foldl (process_line rt) (ev, out) (ls @ eline # dline # ls')
      = foldl (process_line rt) (ev2, out1 @ handle_data rt name (trim (slice dline 6))) ls'"
    by (simp add: a e d)
  then show ?thesis
    using foldl_process_line_grows [of "out1 @ handle_data rt name (trim (slice dline 6))" rt ev2 ls']
    by auto
qed

lemma last_split_on_line_start: "s = [] \<or> last s = c \<Longrightarrow> last (split_on c s) = []"
proof (cases "s = []")
  case True
  then show ?thesis by simp
next
  case False
  assume "s = [] \<or> last s = c"
  with False have "s = butlast s @ [c]"
    using append_butlast_last_id [of s] by simp
  then show ?thesis using last_split_on_snoc_sep [of c "butlast s"] by simp
qed

lemma line_start:
  assumes "concat before @ pre = [] \<or> last (concat before @ pre) = CHR 0x0A"
  shows "last (split_on (CHR 0x0A) (fst (read_loop rt before) @ pre)) = []"
proof -
  have "last (split_on (CHR 0x0A) (fst (read_loop rt before) @ pre))
      = last (split_on (CHR 0x0A) (concat before @ pre))"
    using split_on_append [of "CHR 0x0A" "concat before" pre]
      split_on_not_Nil [of "CHR 0x0A" "last (split_on (CHR 0x0A) (concat before)) @ pre"]
    by (simp add: buffer_is_last_piece)
  also have "\<dots> = []"
    using assms by (rule last_split_on_line_start)
  finally show ?thesis .
qed

lemma whole_event_is_decoded:
  assumes "names_event name eline" and "CHR 0x0A \<notin> set eline"
    and "startsWith dline ''data: ''" and "CHR 0x0A \<notin> set dline"
    and "concat before @ pre = [] \<or> last (concat before @ pre) = CHR 0x0A"
  shows "set (handle_data rt name (trim (slice dline 6)))
           \<subseteq> set (snd (read_loop rt
                 (before @ (pre @ eline @ CHR 0x0A # dline @ CHR 0x0A # post) # after)))"
proof -
  obtain b out where st: "read_loop rt before = (b, out)" by (cases "read_loop rt before")
  have x: "last (split_on (CHR 0x0A) (b @ pre)) = []"
    using line_start [OF assms(5), of rt] st by simp
  have "split_on (CHR 0x0A) ((b @ pre) @ eline @ CHR 0x0A # dline @ CHR 0x0A # post)
      = butlast (split_on (CHR 0x0A) (b @ pre))
        @ split_on (CHR 0x0A) (eline @ CHR 0x0A # dline @ CHR 0x0A # post)"
    using split_on_append [of "CHR 0x0A" "b @ pre" "eline @ CHR 0x0A # dline @ CHR 0x0A # post"] x
    by simp
  also have "split_on (CHR 0x0A) (eline @ CHR 0x0A # dline @ CHR 0x0A # post)
      = eline # dline # split_on (CHR 0x0A) post"
    using assms(2,4) by (simp add: split_on_append_sep split_on_no_sep)
  finally have "butlast (split_on (CHR 0x0A) (b @ pre @ eline @ CHR 0x0A # dline @ CHR 0x0A # post))
      = butlast (split_on (CHR 0x0A) (b @ pre)) @ eline # dline # butlast (split_on (CHR 0x0A) post)"
    using split_on_not_Nil [of "CHR 0x0A" post] by (simp add: butlast_append)
  then have "set (handle_data rt name (trim (slice dline 6)))
      \<subseteq> set (snd (read_chunk rt (b, out) (pre @ eline @ CHR 0x0A # dline @ CHR 0x0A # post)))"
    using event_then_data [OF assms(1,3), of rt "[]" out "butlast (split_on (CHR 0x0A) (b @ pre))"
        "butlast (split_on (CHR 0x0A) post)"]
    by (simp add: read_chunk_def Let_def)
  moreover have "read_loop rt (before @ (pre @ eline @ CHR 0x0A # dline @ CHR 0x0A # post) # after)
      = foldl (read_chunk rt)
          (read_chunk rt (b, out) (pre @ eline @ CHR 0x0A # dline @ CHR 0x0A # post)) after"
    using st by (simp add: read_loop_def)
  ultimately show ?thesis
    using foldl_read_chunk_grows [of "read_chunk rt (b, out) (pre @ eline @ CHR 0x0A # dline @ CHR 0x0A # post)" rt after]
    by auto
qed

lemma handle_error_reports: "\<exists>v. handle_data rt ''error'' data = [OnError v]"
  by (auto simp add: handle_data_def handle_error_def split: option.splits prop_result.splits)

lemma rejection_None: "rejection rt res = None"
  by (simp add: rejection_def catch_block_def split: prod.splits option.splits)



section \<open>Properties of the chat stream\<close>

text \<open>
  Claim C1 (chunking transparency: the decoded events depend on the concatenated input
  only, not on where the chunks are cut). The code does not have this property: the same
  text \<^verbatim>\<open>event: complete\<close>, newline, \<^verbatim>\<open>data: done\<close>, newline gives a text delta and one
  completion when a chunk ends after the first line, and two completions when it
  arrives as one chunk, since \<^verbatim>\<open>currentEvent\<close> starts empty at every chunk.
\<close>

theorem chunk_boundary_changes_events:
  "sendChatStreamMessage example_runtime
     (Response 200 None (Body [''event: complete\<newline>'', ''data: done\<newline>''] Done))
     = [OnDelta ''done'', OnComplete]
   \<and> sendChatStreamMessage example_runtime
     (Response 200 None (Body [''event: complete\<newline>data: done\<newline>''] Done))
     = [OnComplete, OnComplete]"
  by code_simp



text \<open>
  Claim C3 (on every failed request \<^verbatim>\<open>onError\<close> is invoked and \<^verbatim>\<open>onComplete\<close> is still
  invoked; no exception escapes). The claim fails: when \<^verbatim>\<open>fetch\<close> rejects, and when the
  server answers with status 500, the only callback made is \<^verbatim>\<open>onError\<close>.
\<close>

theorem failed_request_never_completes:
  "sendChatStreamMessage example_runtime (FetchRejects (ErrorObject ''Failed to fetch''))
     = [OnError (JStr ''Failed to fetch'')]
   \<and> sendChatStreamMessage example_runtime (Response 500 None (Body [] Done))
     = [OnError (JStr ''HTTP error: 500'')]"
  by code_simp

text \<open>
  Claim C3, as amended. When \<^verbatim>\<open>fetch\<close> rejects, the status is not a success or the
  response has no body, the one callback made is \<^verbatim>\<open>onError\<close>; when a read rejects, the
  callbacks decoded from the chunks read are followed by \<^verbatim>\<open>onError\<close>, the last callback:
  \<^verbatim>\<open>onComplete\<close> is not invoked after any of these failures. When the stream is read to
  its end, the callbacks decoded are followed by one \<^verbatim>\<open>onComplete\<close>; if a chunk carries a
  whole \<^verbatim>\<open>error\<close> event (an \<^verbatim>\<open>event: \<close> line naming \<^verbatim>\<open>error\<close> at the start of a line,
  directly followed by a \<^verbatim>\<open>data: \<close> line), \<^verbatim>\<open>onError\<close> is invoked before that final
  \<^verbatim>\<open>onComplete\<close>. In every case the promise of \<^verbatim>\<open>sendChatStreamMessage\<close> does not reject.
\<close>

theorem failure_reports_error:
  "sendChatStreamMessage rt (FetchRejects e) = [OnError (catch_message e)]
   \<and> (\<not> ok bad \<longrightarrow> (\<exists>m. sendChatStreamMessage rt (Response bad js b) = [OnError (JStr m)]))
   \<and> (ok status \<longrightarrow>
        sendChatStreamMessage rt (Response status js NoBody) = [OnError (JStr ''No response body'')]
        \<and> sendChatStreamMessage rt (Response status js (Body chunks (ReadRejects e)))
            = snd (read_loop rt chunks) @ [OnError (catch_message e)]
        \<and> sendChatStreamMessage rt (Response status js (Body chunks Done))
            = snd (read_loop rt chunks) @ [OnComplete])
   \<and> (ok status \<and> names_event ''error'' eline \<and> CHR 0x0A \<notin> set eline
        \<and> startsWith dline ''data: '' \<and> CHR 0x0A \<notin> set dline
        \<and> (concat before @ pre = [] \<or> last (concat before @ pre) = CHR 0x0A)
        \<and> chunks = before @ (pre @ eline @ CHR 0x0A # dline @ CHR 0x0A # post) # after
       \<longrightarrow> (\<exists>v. OnError v \<in> set (butlast (sendChatStreamMessage rt (Response status js (Body chunks Done)))))
           \<and> last (sendChatStreamMessage rt (Response status js (Body chunks Done))) = OnComplete)
   \<and> rejection rt res = None"
proof -
  have 1: "sendChatStreamMessage rt (FetchRejects e) = [OnError (catch_message e)]"
    by (simp add: sendChatStreamMessage_def try_block_def)
  have 2: "ok status \<Longrightarrow> sendChatStreamMessage rt (Response status js NoBody) = [OnError (JStr ''No response body'')]"
    by (simp add: sendChatStreamMessage_def try_block_def catch_message_def)
  have 3: "\<exists>v. OnError v \<in> set (snd (read_loop rt chunks))"
    if e: "names_event ''error'' eline" "CHR 0x0A \<notin> set eline"
      and d: "startsWith dline ''data: ''" "CHR 0x0A \<notin> set dline"
      and s: "concat before @ pre = [] \<or> last (concat before @ pre) = CHR 0x0A"
      and c: "chunks = before @ (pre @ eline @ CHR 0x0A # dline @ CHR 0x0A # post) # after"
  proof -
    obtain v where v: "handle_data rt ''error'' (trim (slice dline 6)) = [OnError v]"
      using handle_error_reports by blast
    have "set (handle_data rt ''error'' (trim (slice dline 6))) \<subseteq> set (snd (read_loop rt chunks))"
      unfolding c by (rule whole_event_is_decoded [OF e d s])
    then show ?thesis using v by auto
  qed
  have 4: "ok status \<Longrightarrow> butlast (sendChatStreamMessage rt (Response status js (Body chunks Done)))
       = snd (read_loop rt chunks)"
    by (simp add: sendChat_ok_done)
  have 5: "ok status \<Longrightarrow> last (sendChatStreamMessage rt (Response status js (Body chunks Done))) = OnComplete"
    by (simp add: sendChat_ok_done)
  have B: "\<not> ok bad \<longrightarrow> (\<exists>m. sendChatStreamMessage rt (Response bad js b) = [OnError (JStr m)])"
    using sendChat_not_ok [of bad rt js b] by blast
  have C: "ok status \<longrightarrow>
        sendChatStreamMessage rt (Response status js NoBody) = [OnError (JStr ''No response body'')]
        \<and> sendChatStreamMessage rt (Response status js (Body chunks (ReadRejects e)))
            = snd (read_loop rt chunks) @ [OnError (catch_message e)]
        \<and> sendChatStreamMessage rt (Response status js (Body chunks Done))
            = snd (read_loop rt chunks) @ [OnComplete]"
    using 2 sendChat_ok_rejects [of status rt js chunks e] sendChat_ok_done [of status rt js chunks]
    by blast
  have D: "ok status \<and> names_event ''error'' eline \<and> CHR 0x0A \<notin> set eline
        \<and> startsWith dline ''data: '' \<and> CHR 0x0A \<notin> set dline
        \<and> (concat before @ pre = [] \<or> last (concat before @ pre) = CHR 0x0A)
        \<and> chunks = before @ (pre @ eline @ CHR 0x0A # dline @ CHR 0x0A # post) # after
       \<longrightarrow> (\<exists>v. OnError v \<in> set (butlast (sendChatStreamMessage rt (Response status js (Body chunks Done)))))
           \<and> last (sendChatStreamMessage rt (Response status js (Body chunks Done))) = OnComplete"
    using 3 4 5 by metis
  have E: "rejection rt res = None"
    by (rule rejection_None)
  show ?thesis
    using 1 B C D E by (intro conjI)
qed

theorem failure_reports_error_witness:
  "\<not> ok 500 \<and> ok 200
   \<and> names_event ''error'' ''event: error'' \<and> CHR 0x0A \<notin> set ''event: error''
   \<and> startsWith ''data: boom'' ''data: '' \<and> CHR 0x0A \<notin> set ''data: boom''
   \<and> concat [] @ [] = ([] :: string)
   \<and> sendChatStreamMessage example_runtime (FetchRejects OtherValue)
       = [OnError (JStr ''Error connecting to chat service'')]
   \<and> (\<exists>m. sendChatStreamMessage example_runtime (Response 500 None (Body [] Done)) = [OnError (JStr m)])
   \<and> sendChatStreamMessage example_runtime (Response 200 None NoBody) = [OnError (JStr ''No response body'')]
   \<and> sendChatStreamMessage example_runtime
        (Response 200 None (Body [''event: error\<newline>data: boom\<newline>''] (ReadRejects OtherValue)))
       = [OnError (JStr ''boom''), OnError (JStr ''Error connecting to chat service'')]
   \<and> sendChatStreamMessage example_runtime
        (Response 200 None (Body [''event: error\<newline>data: boom\<newline>''] Done))
       = [OnError (JStr ''boom''), OnComplete]
   \<and> (\<exists>v. OnError v \<in> set (butlast (sendChatStreamMessage example_runtime
        (Response 200 None (Body [''event: error\<newline>data: boom\<newline>''] Done)))))
   \<and> rejection example_runtime (FetchRejects OtherValue) = None"
proof -
  let ?chunks = "[''event: error\<newline>data: boom\<newline>'']"
  have a: "\<not> ok 500" and b: "ok 200" by (simp_all add: ok_def)
  have e: "names_event ''error'' ''event: error''" "CHR 0x0A \<notin> set ''event: error''"
    by (simp_all add: names_event_def startsWith_def slice_def trim_def is_space_def)
  have d: "startsWith ''data: boom'' ''data: ''" "CHR 0x0A \<notin> set ''data: boom''"
    by (simp_all add: startsWith_def)
  have s: "concat [] @ [] = ([] :: string)" by simp
  have c: "?chunks = [] @ ([] @ ''event: error'' @ CHR 0x0A # ''data: boom'' @ CHR 0x0A # []) # []"
    by simp
  have l: "snd (read_loop example_runtime ?chunks) = [OnError (JStr ''boom'')]"
    by code_simp
  have m: "catch_message OtherValue = JStr ''Error connecting to chat service''"
    by (simp add: catch_message_def)
  note t = failure_reports_error [where rt = example_runtime and e = OtherValue and bad = 500
      and js = None and b = "Body [] Done" and status = 200 and chunks = ?chunks
      and eline = "''event: error''" and dline = "''data: boom''" and before = "[]" and pre = "[]"
      and post = "[]" and after = "[]" and res = "FetchRejects OtherValue"]
  from t m have f1: "sendChatStreamMessage example_runtime (FetchRejects OtherValue)
       = [OnError (JStr ''Error connecting to chat service'')]"
    by simp
  from t a have f2: "\<exists>m. sendChatStreamMessage example_runtime (Response 500 None (Body [] Done)) = [OnError (JStr m)]"
    by blast
  from t b have f3: "sendChatStreamMessage example_runtime (Response 200 None NoBody) = [OnError (JStr ''No response body'')]"
    by blast
  from t b l m have f4: "sendChatStreamMessage example_runtime
        (Response 200 None (Body ?chunks (ReadRejects OtherValue)))
       = [OnError (JStr ''boom''), OnError (JStr ''Error connecting to chat service'')]"
    by simp
  from t b l have f5: "sendChatStreamMessage example_runtime (Response 200 None (Body ?chunks Done))
       = [OnError (JStr ''boom''), OnComplete]"
    by simp
  from t b e d s c have f6: "\<exists>v. OnError v \<in> set (butlast (sendChatStreamMessage example_runtime
        (Response 200 None (Body ?chunks Done))))"
    by blast
  from t have f7: "rejection example_runtime (FetchRejects OtherValue) = None"
    by blast
  show ?thesis using a b e d s f1 f2 f3 f4 f5 f6 f7 by blast
qed

text \<open>
  Claim C5 (an empty line resets the current event name, so a data line after an
  \<^verbatim>\<open>init\<close> or \<^verbatim>\<open>complete\<close> block and an empty line is a text delta). The code does
  not do this within a chunk: the data line \<^verbatim>\<open>data: Hel\<close> after the empty line is
  handled under the previous event name, as an \<^verbatim>\<open>init\<close> payload that does not parse
  (no callback) or as another completion. No \<^verbatim>\<open>onDelta\<close> is made.
\<close>

theorem empty_line_keeps_event_name:
  "sendChatStreamMessage example_runtime
     (Response 200 None
        (Body [''event: init\<newline>data: {\"conversationId\":\"abc\"}\<newline>\<newline>data: Hel\<newline>''] Done))
     = [OnInit (JStr ''abc''), OnComplete]
   \<and> sendChatStreamMessage example_runtime
     (Response 200 None
        (Body [''event: complete\<newline>data: done\<newline>\<newline>data: Hel\<newline>''] Done))
     = [OnComplete, OnComplete, OnComplete]"
  by code_simp

text \<open>
  Claim C8 (end-of-stream flush): when the stream of a successful response reaches its
  end and none of its terminated lines is an \<^verbatim>\<open>event: \<close> line naming \<^verbatim>\<open>complete\<close>,
  whatever the chunking, \<^verbatim>\<open>onComplete\<close> is invoked exactly once, as the last callback.
\<close>

theorem end_of_stream_completes_once:
  assumes "ok status"
    and "\<forall>line \<in> set (stream_lines chunks). \<not> names_event ''complete'' line"
  shows "count_list (sendChatStreamMessage rt (Response status js (Body chunks Done))) OnComplete = 1
         \<and> last (sendChatStreamMessage rt (Response status js (Body chunks Done))) = OnComplete"
  using assms(1) read_loop_no_complete [OF assms(2), of rt] by (simp add: sendChat_ok_done)

theorem end_of_stream_completes_once_witness:
  "ok 200
   \<and> stream_lines [''data: Hel\<newline>data: lo\<newline>'', ''data: !\<newline>'']
       = [''data: Hel'', ''data: lo'', ''data: !'']
   \<and> \<not> names_event ''complete'' ''data: Hel''
   \<and> \<not> names_event ''complete'' ''data: lo''
   \<and> \<not> names_event ''complete'' ''data: !''
   \<and> count_list (sendChatStreamMessage example_runtime
         (Response 200 None (Body [''data: Hel\<newline>data: lo\<newline>'', ''data: !\<newline>''] Done))) OnComplete = 1
   \<and> sendChatStreamMessage example_runtime
         (Response 200 None (Body [''data: Hel\<newline>data: lo\<newline>'', ''data: !\<newline>''] Done))
       = [OnDelta ''Hel'', OnDelta ''lo'', OnDelta ''!'', OnComplete]"
proof -
  have a: "ok 200" by (simp add: ok_def)
  have l: "stream_lines [''data: Hel\<newline>data: lo\<newline>'', ''data: !\<newline>'']
       = [''data: Hel'', ''data: lo'', ''data: !'']"
    by code_simp
  have n: "\<not> names_event ''complete'' ''data: Hel''" "\<not> names_event ''complete'' ''data: lo''"
    "\<not> names_event ''complete'' ''data: !''"
    by (simp_all add: names_event_def startsWith_def)
  have b: "\<forall>line \<in> set (stream_lines [''data: Hel\<newline>data: lo\<newline>'', ''data: !\<newline>'']).
             \<not> names_event ''complete'' line"
    unfolding l using n by simp
  have c: "sendChatStreamMessage example_runtime
         (Response 200 None (Body [''data: Hel\<newline>data: lo\<newline>'', ''data: !\<newline>''] Done))
       = [OnDelta ''Hel'', OnDelta ''lo'', OnDelta ''!'', OnComplete]"
    by code_simp
  from end_of_stream_completes_once [OF a b, of example_runtime None]
  have d: "count_list (sendChatStreamMessage example_runtime
         (Response 200 None (Body [''data: Hel\<newline>data: lo\<newline>'', ''data: !\<newline>''] Done))) OnComplete = 1"
    by blast
  show ?thesis using a l n c d by blast
qed

text \<open>
  Claim C9 (the carry-over buffer is discarded at end-of-stream): text after the last
  newline, whether at the end of a chunk or spread over the following chunks, stays in
  \<^verbatim>\<open>buffer\<close> as the pending fragment and produces no callback; the run makes the same
  callbacks as for the stream cut after the last complete line.
\<close>

theorem unterminated_tail_is_dropped:
  assumes "CHR 0x0A \<notin> set frag" and "CHR 0x0A \<notin> set (concat tail)"
  shows "snd (read_loop rt (chunks @ (c @ frag) # tail)) = snd (read_loop rt (chunks @ [c]))
         \<and> fst (read_loop rt (chunks @ (c @ frag) # tail))
             = fst (read_loop rt (chunks @ [c])) @ frag @ concat tail
         \<and> sendChatStreamMessage rt (Response status js (Body (chunks @ (c @ frag) # tail) e))
             = sendChatStreamMessage rt (Response status js (Body (chunks @ [c]) e))"
proof -
  have r: "read_loop rt (chunks @ (c @ frag) # tail) =
          (fst (read_loop rt (chunks @ [c])) @ frag @ concat tail, snd (read_loop rt (chunks @ [c])))"
    by (rule read_loop_unterminated [OF assms])
  then show ?thesis
    by (simp add: sendChatStreamMessage_def try_block_def Let_def)
qed

theorem unterminated_tail_is_dropped_witness:
  "CHR 0x0A \<notin> set ''data: '' \<and> CHR 0x0A \<notin> set (concat [''!''])
   \<and> snd (read_loop example_runtime ([''data: Hel\<newline>''] @ (''data: lo\<newline>'' @ ''data: '') # [''!'']))
       = [OnDelta ''Hel'', OnDelta ''lo'']
   \<and> fst (read_loop example_runtime ([''data: Hel\<newline>''] @ (''data: lo\<newline>'' @ ''data: '') # [''!'']))
       = ''data: !''
   \<and> sendChatStreamMessage example_runtime
        (Response 200 None (Body ([''data: Hel\<newline>''] @ (''data: lo\<newline>'' @ ''data: '') # [''!'']) Done))
       = [OnDelta ''Hel'', OnDelta ''lo'', OnComplete]"
proof -
  have a: "CHR 0x0A \<notin> set ''data: ''" and b: "CHR 0x0A \<notin> set (concat [''!''])" by simp_all
  have c: "read_loop example_runtime ([''data: Hel\<newline>''] @ [''data: lo\<newline>''])
             = ([], [OnDelta ''Hel'', OnDelta ''lo''])"
    by code_simp
  have d: "sendChatStreamMessage example_runtime
        (Response 200 None (Body ([''data: Hel\<newline>''] @ [''data: lo\<newline>'']) Done))
       = [OnDelta ''Hel'', OnDelta ''lo'', OnComplete]"
    by code_simp
  show ?thesis
    using unterminated_tail_is_dropped [OF a b, of example_runtime "[''data: Hel\<newline>'']"
        "''data: lo\<newline>''" 200 None Done] c d
    by simp
qed

section \<open>Properties of the history store\<close>

lemma messages_loadInitial_settle:
  "messages (loadInitialMessages_settle Date convId cur (Resolved resp))
     = map (convertToMessage Date) (r_messages resp)"
  by (simp add: loadInitialMessages_settle_def Let_def)

lemma messages_loadMore_settle:
  "messages (loadMoreMessages_settle Date snap cur (Resolved resp))
     = map (convertToMessage Date)
         (filter (\<lambda>dto. toString (dto_id dto) \<notin> loadedMessageIds cur) (r_messages resp))
       @ messages cur"
  by (simp add: loadMoreMessages_settle_def Let_def)

lemma loaded_loadMore_settle:
  "loadedMessageIds (loadMoreMessages_settle Date snap cur (Resolved resp))
     = loadedMessageIds cur \<union>
       set (map (toString \<circ> dto_id)
         (filter (\<lambda>dto. toString (dto_id dto) \<notin> loadedMessageIds cur) (r_messages resp)))"
  by (simp add: loadMoreMessages_settle_def Let_def image_image convertToMessage_def)

lemma loadMore_begin_early:
  "returns_early snap \<Longrightarrow> loadMoreMessages_begin opts snap cur = (cur, None)"
  by (auto simp add: returns_early_def loadMoreMessages_begin_def split: option.splits)

lemma loadMore_begin_fetch:
  "\<not> returns_early snap \<Longrightarrow>
   \<exists>c. conversationId snap = Some c \<and>
       loadMoreMessages_begin opts snap cur =
         (cur\<lparr>isLoadingMore := True\<rparr>,
          Some (GetMessagesForConversation c (currentPage snap + 1) (pageSize opts)))"
  by (auto simp add: returns_early_def loadMoreMessages_begin_def split: option.splits)

lemma loadMore_early: "returns_early snap \<Longrightarrow> loadMoreMessages opts Date api snap cur = cur"
  by (simp add: loadMoreMessages_def loadMore_begin_early)

lemma loadMore_next_render_early:
  "\<not> returns_early snap \<Longrightarrow>
   returns_early (fst (loadMoreMessages_begin opts snap snap))"
  using loadMore_begin_fetch [of snap opts snap]
  by (auto simp add: returns_early_def)

lemma timestamp_convert: "timestamp \<circ> convertToMessage Date = Date \<circ> createdAt"
  by (rule ext) (simp add: convertToMessage_def)

lemma msg_id_convert: "msg_id \<circ> convertToMessage Date = toString \<circ> dto_id"
  by (rule ext) (simp add: convertToMessage_def)

text \<open>
  After a successful \<^verbatim>\<open>loadInitialMessages\<close> the ids of the list are the ids of the page,
  in its order, and the loaded-ID set is their set: the list carries only tracked ids,
  and no id twice if the page does not.
\<close>

lemma loadInitial_tracks_ids:
  assumes "convId \<noteq> []"
  shows "map msg_id (messages (loadInitialMessages opts Date (answering (Resolved resp)) convId cur))
           = map (toString \<circ> dto_id) (r_messages resp)
         \<and> loadedMessageIds (loadInitialMessages opts Date (answering (Resolved resp)) convId cur)
           = set (map (toString \<circ> dto_id) (r_messages resp))"
  using assms
  by (simp add: loadInitialMessages_def loadInitialMessages_begin_def answering_def
      loadInitialMessages_settle_def Let_def convertToMessage_def image_image comp_def)

text \<open>
  Claim C4 (after a successful load of a page delivered newest-first the list is in
  ascending chronological order). The claim fails: \<^verbatim>\<open>loadInitialMessages\<close> stores a page
  of two messages delivered newest-first in that same, descending, order.
\<close>

theorem newest_first_page_stays_newest_first:
  "map timestamp (messages (loadInitialMessages example_options example_Date
      (answering (Resolved (example_response
         [example_dto 101 ''2024-05-01T10:00:01Z'', example_dto 100 ''2024-05-01T10:00:00Z''] False)))
      ''c1'' initial_state))
     = [1714557601000, 1714557600000]
   \<and> \<not> sorted (map timestamp (messages (loadInitialMessages example_options example_Date
      (answering (Resolved (example_response
         [example_dto 101 ''2024-05-01T10:00:01Z'', example_dto 100 ''2024-05-01T10:00:00Z''] False)))
      ''c1'' initial_state)))"
  by (simp add: loadInitialMessages_def loadInitialMessages_begin_def answering_def
      messages_loadInitial_settle example_response_def example_dto_def convertToMessage_def
      example_Date_def)

text \<open>
  Claim C4, as amended: a successful \<^verbatim>\<open>loadInitialMessages\<close> or \<^verbatim>\<open>loadMoreMessages\<close>
  keeps the order of the wire payload, with no reversal. The list is ascending after
  \<^verbatim>\<open>loadInitialMessages\<close> when the page is delivered oldest-first, and after
  \<^verbatim>\<open>loadMoreMessages\<close> when, besides, the list was ascending and no message of the page
  is later than a message of the list.
\<close>

theorem load_keeps_wire_order:
  "map timestamp (messages (loadInitialMessages_settle Date convId cur (Resolved resp)))
     = map (Date \<circ> createdAt) (r_messages resp)
   \<and> map timestamp (messages (loadMoreMessages_settle Date snap cur (Resolved resp)))
     = map (Date \<circ> createdAt)
         (filter (\<lambda>dto. toString (dto_id dto) \<notin> loadedMessageIds cur) (r_messages resp))
       @ map timestamp (messages cur)
   \<and> (sorted (map (Date \<circ> createdAt) (r_messages resp)) \<longrightarrow>
        sorted (map timestamp (messages (loadInitialMessages_settle Date convId cur (Resolved resp)))))
   \<and> (sorted (map (Date \<circ> createdAt) (r_messages resp))
        \<and> sorted (map timestamp (messages cur))
        \<and> (\<forall>dto \<in> set (r_messages resp). \<forall>m \<in> set (messages cur). Date (createdAt dto) \<le> timestamp m)
       \<longrightarrow> sorted (map timestamp (messages (loadMoreMessages_settle Date snap cur (Resolved resp)))))"
proof -
  have 1: "map timestamp (messages (loadInitialMessages_settle Date convId cur (Resolved resp)))
     = map (Date \<circ> createdAt) (r_messages resp)"
    by (simp add: messages_loadInitial_settle timestamp_convert)
  have 2: "map timestamp (messages (loadMoreMessages_settle Date snap cur (Resolved resp)))
     = map (Date \<circ> createdAt)
         (filter (\<lambda>dto. toString (dto_id dto) \<notin> loadedMessageIds cur) (r_messages resp))
       @ map timestamp (messages cur)"
    by (simp add: messages_loadMore_settle timestamp_convert)
  have 3: "sorted (map (Date \<circ> createdAt) (r_messages resp)) \<Longrightarrow>
     sorted (map (Date \<circ> createdAt)
         (filter (\<lambda>dto. toString (dto_id dto) \<notin> loadedMessageIds cur) (r_messages resp)))"
    by (rule sorted_filter)
  show ?thesis
    unfolding 1 2 using 3 by (auto simp add: sorted_append)
qed

theorem load_keeps_wire_order_witness:
  "sorted (map (example_Date \<circ> createdAt)
      [example_dto 7 ''2024-05-01T10:00:00Z'', example_dto 8 ''2024-05-01T10:00:01Z''])
   \<and> sorted (map timestamp (messages example_ready))
   \<and> map timestamp (messages example_ready) = [1714557601000]
   \<and> sorted (map timestamp (messages (loadInitialMessages_settle example_Date ''c1'' example_ready
        (Resolved (example_response
           [example_dto 7 ''2024-05-01T10:00:00Z'', example_dto 8 ''2024-05-01T10:00:01Z''] True)))))
   \<and> sorted (map timestamp (messages (loadMoreMessages_settle example_Date example_ready example_ready
        (Resolved (example_response
           [example_dto 7 ''2024-05-01T10:00:00Z'', example_dto 8 ''2024-05-01T10:00:01Z''] True)))))"
proof -
  have r: "r_messages (example_response
           [example_dto 7 ''2024-05-01T10:00:00Z'', example_dto 8 ''2024-05-01T10:00:01Z''] True)
        = [example_dto 7 ''2024-05-01T10:00:00Z'', example_dto 8 ''2024-05-01T10:00:01Z'']"
    by (simp add: example_response_def)
  have a: "sorted (map (example_Date \<circ> createdAt)
      [example_dto 7 ''2024-05-01T10:00:00Z'', example_dto 8 ''2024-05-01T10:00:01Z''])"
    by (simp add: example_dto_def example_Date_def)
  have b: "sorted (map timestamp (messages example_ready))"
    by (simp add: example_ready_def)
  have c: "\<forall>dto \<in> set [example_dto 7 ''2024-05-01T10:00:00Z'', example_dto 8 ''2024-05-01T10:00:01Z''].
        \<forall>m \<in> set (messages example_ready). example_Date (createdAt dto) \<le> timestamp m"
    by (simp add: example_ready_def example_dto_def example_Date_def convertToMessage_def)
  note t = load_keeps_wire_order [where Date = example_Date and convId = "''c1''"
        and resp = "example_response [example_dto 7 ''2024-05-01T10:00:00Z'', example_dto 8 ''2024-05-01T10:00:01Z''] True"
        and cur = example_ready and snap = example_ready, unfolded r]
  from t a have s1: "sorted (map timestamp (messages (loadInitialMessages_settle example_Date ''c1'' example_ready
        (Resolved (example_response
           [example_dto 7 ''2024-05-01T10:00:00Z'', example_dto 8 ''2024-05-01T10:00:01Z''] True)))))"
    by blast
  from t a b c have s2: "sorted (map timestamp (messages (loadMoreMessages_settle example_Date example_ready example_ready
        (Resolved (example_response
           [example_dto 7 ''2024-05-01T10:00:00Z'', example_dto 8 ''2024-05-01T10:00:01Z''] True)))))"
    by blast
  have d: "map timestamp (messages example_ready) = [1714557601000]"
    by (simp add: example_ready_def example_dto_def example_Date_def convertToMessage_def)
  show ?thesis using a b d s1 s2 by blast
qed

lemma loadMore_settle_merge:
  "messages (loadMoreMessages_settle Date snap cur (Resolved resp))
     = map (convertToMessage Date)
         (filter (\<lambda>dto. toString (dto_id dto) \<notin> loadedMessageIds cur) (r_messages resp))
       @ messages cur
   \<and> (\<forall>dto \<in> set (filter (\<lambda>dto. toString (dto_id dto) \<notin> loadedMessageIds cur) (r_messages resp)).
         msg_id (convertToMessage Date dto) \<notin> loadedMessageIds cur)
   \<and> length (messages (loadMoreMessages_settle Date snap cur (Resolved resp)))
       = length (messages cur)
         + (length (r_messages resp)
            - length (filter (\<lambda>dto. toString (dto_id dto) \<in> loadedMessageIds cur) (r_messages resp)))
   \<and> (distinct (map (toString \<circ> dto_id) (r_messages resp))
        \<and> distinct (map msg_id (messages cur))
        \<and> set (map msg_id (messages cur)) \<subseteq> loadedMessageIds cur
       \<longrightarrow> distinct (map msg_id (messages (loadMoreMessages_settle Date snap cur (Resolved resp))))
           \<and> set (map msg_id (messages (loadMoreMessages_settle Date snap cur (Resolved resp))))
               \<subseteq> loadedMessageIds (loadMoreMessages_settle Date snap cur (Resolved resp)))"
proof -
  let ?fresh = "filter (\<lambda>dto. toString (dto_id dto) \<notin> loadedMessageIds cur) (r_messages resp)"
  let ?s = "loadMoreMessages_settle Date snap cur (Resolved resp)"
  have m: "messages ?s = map (convertToMessage Date) ?fresh @ messages cur"
    by (rule messages_loadMore_settle)
  have ids: "map msg_id (map (convertToMessage Date) ?fresh) = map (toString \<circ> dto_id) ?fresh"
    by (simp add: msg_id_convert)
  have new: "\<forall>dto \<in> set ?fresh. msg_id (convertToMessage Date dto) \<notin> loadedMessageIds cur"
    by (simp add: convertToMessage_def)
  have len: "length ?fresh = length (r_messages resp)
      - length (filter (\<lambda>dto. toString (dto_id dto) \<in> loadedMessageIds cur) (r_messages resp))"
    using sum_length_filter_compl [of "\<lambda>dto. toString (dto_id dto) \<in> loadedMessageIds cur" "r_messages resp"]
    by simp
  have dist: "distinct (map msg_id (messages ?s))"
    if a: "distinct (map (toString \<circ> dto_id) (r_messages resp))"
      and b: "distinct (map msg_id (messages cur))"
      and c: "set (map msg_id (messages cur)) \<subseteq> loadedMessageIds cur"
  proof -
    have d1: "distinct (map (toString \<circ> dto_id) ?fresh)"
      using a by (rule distinct_map_filter)
    have d2: "set (map (toString \<circ> dto_id) ?fresh) \<inter> set (map msg_id (messages cur)) = {}"
      using c by auto
    show ?thesis
      unfolding m using d1 d2 b by (simp add: ids del: map_map)
  qed
  have sub: "set (map msg_id (messages ?s)) \<subseteq> loadedMessageIds ?s"
    if c: "set (map msg_id (messages cur)) \<subseteq> loadedMessageIds cur"
    unfolding m loaded_loadMore_settle using c by (auto simp add: convertToMessage_def)
  show ?thesis
    using m new len dist sub by simp
qed

text \<open>
  Claim C6 (deduplication in the merge step: after every \<^verbatim>\<open>loadMoreMessages\<close> no two
  messages of the list share an id). The claim fails in two ways. The filter compares
  with the loaded-ID set as it was before the page, so a page that carries a new id twice
  puts it twice in the list. And the list may hold an id that the set has lost: a
  rejected \<^verbatim>\<open>loadInitialMessages\<close> has cleared the set and kept the list, after which a
  page with the id of a message of the list adds it again.
\<close>

theorem merge_can_repeat_an_id:
  "map msg_id (messages (loadMoreMessages example_options example_Date
      (answering (Resolved (example_response
         [example_dto 7 ''2024-05-01T10:00:00Z'', example_dto 7 ''2024-05-01T10:00:00Z''] False)))
      example_ready example_ready))
     = [''7'', ''7'', ''9'']
   \<and> loadInitialMessages example_options example_Date (answering Rejected) ''c1'' example_ready
     = example_ready\<lparr>loadedMessageIds := {}\<rparr>
   \<and> map msg_id (messages (loadMoreMessages example_options example_Date
      (answering (Resolved (example_response [example_dto 9 ''2024-05-01T10:00:01Z''] False)))
      (example_ready\<lparr>loadedMessageIds := {}\<rparr>) (example_ready\<lparr>loadedMessageIds := {}\<rparr>)))
     = [''9'', ''9'']"
proof -
  have 1: "map msg_id (messages (loadMoreMessages example_options example_Date
      (answering (Resolved (example_response
         [example_dto 7 ''2024-05-01T10:00:00Z'', example_dto 7 ''2024-05-01T10:00:00Z''] False)))
      example_ready example_ready))
     = [''7'', ''7'', ''9'']"
    by code_simp
  have 2: "loadInitialMessages example_options example_Date (answering Rejected) ''c1'' example_ready
     = example_ready\<lparr>loadedMessageIds := {}\<rparr>"
    by (simp add: loadInitialMessages_def loadInitialMessages_begin_def loadInitialMessages_settle_def
        answering_def example_ready_def)
  have 3: "map msg_id (messages (loadMoreMessages example_options example_Date
      (answering (Resolved (example_response [example_dto 9 ''2024-05-01T10:00:01Z''] False)))
      (example_ready\<lparr>loadedMessageIds := {}\<rparr>) (example_ready\<lparr>loadedMessageIds := {}\<rparr>)))
     = [''9'', ''9'']"
    by code_simp
  show ?thesis using 1 2 3 by (intro conjI)
qed

text \<open>
  Claim C6, as amended: when a \<^verbatim>\<open>loadMoreMessages\<close> call makes its fetch and the fetch
  resolves, the messages prepended are the messages of the fetched page whose id is not
  in the loaded-ID set, so none of them has an id of that set, and the new length is the
  old length plus the number of messages in the page minus the number of those already
  loaded. When the page carries no id twice, and the
  list carries no id twice and only ids of the loaded-ID set, the same holds of the list
  after the merge.
\<close>

theorem loadMore_merge:
  assumes "loadMoreMessages_begin opts snap cur = (s, Some req)" and "api req = Resolved resp"
  shows "messages (loadMoreMessages opts Date api snap cur)
     = map (convertToMessage Date)
         (filter (\<lambda>dto. toString (dto_id dto) \<notin> loadedMessageIds cur) (r_messages resp))
       @ messages cur
   \<and> (\<forall>dto \<in> set (filter (\<lambda>dto. toString (dto_id dto) \<notin> loadedMessageIds cur) (r_messages resp)).
         msg_id (convertToMessage Date dto) \<notin> loadedMessageIds cur)
   \<and> length (messages (loadMoreMessages opts Date api snap cur))
       = length (messages cur)
         + (length (r_messages resp)
            - length (filter (\<lambda>dto. toString (dto_id dto) \<in> loadedMessageIds cur) (r_messages resp)))
   \<and> (distinct (map (toString \<circ> dto_id) (r_messages resp))
        \<and> distinct (map msg_id (messages cur))
        \<and> set (map msg_id (messages cur)) \<subseteq> loadedMessageIds cur
       \<longrightarrow> distinct (map msg_id (messages (loadMoreMessages opts Date api snap cur)))
           \<and> set (map msg_id (messages (loadMoreMessages opts Date api snap cur)))
               \<subseteq> loadedMessageIds (loadMoreMessages opts Date api snap cur))"
proof -
  have "s = cur\<lparr>isLoadingMore := True\<rparr>"
    using assms(1) by (auto simp add: loadMoreMessages_begin_def split: option.splits if_splits)
  then have eq: "loadMoreMessages opts Date api snap cur
      = loadMoreMessages_settle Date snap (cur\<lparr>isLoadingMore := True\<rparr>) (Resolved resp)"
    using assms by (simp add: loadMoreMessages_def)
  have sel: "messages (cur\<lparr>isLoadingMore := True\<rparr>) = messages cur"
    "loadedMessageIds (cur\<lparr>isLoadingMore := True\<rparr>) = loadedMessageIds cur"
    by simp_all
  show ?thesis
    unfolding eq
    by (rule loadMore_settle_merge [where Date = Date and snap = snap
        and cur = "cur\<lparr>isLoadingMore := True\<rparr>" and resp = resp, unfolded sel])
qed

theorem loadMore_merge_witness:
  "loadMoreMessages_begin example_options example_ready example_ready
     = (example_ready\<lparr>isLoadingMore := True\<rparr>, Some (GetMessagesForConversation ''c1'' 1 20))
   \<and> distinct (map (toString \<circ> dto_id)
      (r_messages (example_response
         [example_dto 8 ''2024-05-01T10:00:00Z'', example_dto 9 ''2024-05-01T10:00:01Z''] False)))
   \<and> distinct (map msg_id (messages example_ready))
   \<and> set (map msg_id (messages example_ready)) \<subseteq> loadedMessageIds example_ready
   \<and> map msg_id (messages (loadMoreMessages example_options example_Date
        (answering (Resolved (example_response
           [example_dto 8 ''2024-05-01T10:00:00Z'', example_dto 9 ''2024-05-01T10:00:01Z''] False)))
        example_ready example_ready))
       = [''8'', ''9'']
   \<and> length (messages (loadMoreMessages example_options example_Date
        (answering (Resolved (example_response
           [example_dto 8 ''2024-05-01T10:00:00Z'', example_dto 9 ''2024-05-01T10:00:01Z''] False)))
        example_ready example_ready))
       = 1 + (2 - 1)
   \<and> distinct (map msg_id (messages (loadMoreMessages example_options example_Date
        (answering (Resolved (example_response
           [example_dto 8 ''2024-05-01T10:00:00Z'', example_dto 9 ''2024-05-01T10:00:01Z''] False)))
        example_ready example_ready)))"
proof -
  let ?resp = "example_response
         [example_dto 8 ''2024-05-01T10:00:00Z'', example_dto 9 ''2024-05-01T10:00:01Z''] False"
  have g: "loadMoreMessages_begin example_options example_ready example_ready
     = (example_ready\<lparr>isLoadingMore := True\<rparr>, Some (GetMessagesForConversation ''c1'' 1 20))"
    by (simp add: loadMoreMessages_begin_def returns_early_def example_ready_def example_options_def)
  have h: "answering (Resolved ?resp) (GetMessagesForConversation ''c1'' 1 20) = Resolved ?resp"
    by (simp add: answering_def)
  have a: "distinct (map (toString \<circ> dto_id) (r_messages ?resp))"
    by code_simp
  have b: "distinct (map msg_id (messages example_ready))"
    by (simp add: example_ready_def)
  have c: "set (map msg_id (messages example_ready)) \<subseteq> loadedMessageIds example_ready"
    by code_simp
  have d: "map msg_id (messages (loadMoreMessages example_options example_Date
        (answering (Resolved ?resp)) example_ready example_ready)) = [''8'', ''9'']"
    by code_simp
  note t = loadMore_merge [where api = "answering (Resolved ?resp)" and Date = example_Date, OF g h]
  from t a b c have e: "distinct (map msg_id (messages (loadMoreMessages example_options example_Date
        (answering (Resolved ?resp)) example_ready example_ready)))"
    by blast
  have f: "length (messages (loadMoreMessages example_options example_Date
        (answering (Resolved ?resp)) example_ready example_ready)) = 1 + (2 - 1)"
    using d by (metis length_map length_Cons list.size(3) One_nat_def Suc_1 add_diff_cancel_left' plus_1_eq_Suc)
  show ?thesis using g a b c d e f by blast
qed

text \<open>
  Claim C7 (single outstanding fetch: a second call of \<^verbatim>\<open>loadMoreMessages\<close> before the
  first resolves makes no fetch). The guard holds what the claim says of it (lemmas
  \<open>loadMore_begin_early\<close>, \<open>loadMore_early\<close>), and a callback of a later render, which
  has seen \<^verbatim>\<open>isLoadingMore\<close>, returns early (lemma \<open>loadMore_next_render_early\<close>). The
  code does not have the property for two calls of one render's callback: the first call
  sets \<^verbatim>\<open>isLoadingMore\<close> in the state, the second still reads its render's constant
  \<^verbatim>\<open>false\<close>, and both request page 1.
\<close>

theorem same_render_calls_both_fetch:
  "loadMoreMessages_begin example_options example_ready example_ready
     = (example_ready\<lparr>isLoadingMore := True\<rparr>, Some (GetMessagesForConversation ''c1'' 1 20))
   \<and> loadMoreMessages_begin example_options example_ready (example_ready\<lparr>isLoadingMore := True\<rparr>)
     = (example_ready\<lparr>isLoadingMore := True\<rparr>, Some (GetMessagesForConversation ''c1'' 1 20))"
  by (simp add: loadMoreMessages_begin_def returns_early_def example_ready_def example_options_def)

theorem same_render_calls_both_fetch_witness:
  "\<not> returns_early example_ready
   \<and> snd (loadMoreMessages_begin example_options example_ready example_ready)
       = Some (GetMessagesForConversation ''c1'' 1 20)
   \<and> isLoadingMore (fst (loadMoreMessages_begin example_options example_ready example_ready))
   \<and> snd (loadMoreMessages_begin example_options example_ready
             (fst (loadMoreMessages_begin example_options example_ready example_ready)))
       = Some (GetMessagesForConversation ''c1'' 1 20)"
proof -
  have a: "\<not> returns_early example_ready"
    by (simp add: returns_early_def example_ready_def)
  note t = same_render_calls_both_fetch
  from t have b: "snd (loadMoreMessages_begin example_options example_ready example_ready)
       = Some (GetMessagesForConversation ''c1'' 1 20)"
    by simp
  from t have c: "fst (loadMoreMessages_begin example_options example_ready example_ready)
       = example_ready\<lparr>isLoadingMore := True\<rparr>"
    by simp
  from t have d: "snd (loadMoreMessages_begin example_options example_ready
             (example_ready\<lparr>isLoadingMore := True\<rparr>))
       = Some (GetMessagesForConversation ''c1'' 1 20)"
    by simp
  show ?thesis using a b d unfolding c by simp
qed

text \<open>
  Claim C10 (\<^verbatim>\<open>loadMoreMessages\<close> is atomic on failure): when the call makes its fetch
  and the fetch rejects, the call returns with the state it found, but for
  \<^verbatim>\<open>isLoadingMore\<close>, which is \<^verbatim>\<open>false\<close>: the list, the loaded-ID set, the page cursor and
  \<^verbatim>\<open>hasMoreMessages\<close> are unchanged.
\<close>

theorem loadMore_rejected_keeps_state:
  assumes "loadMoreMessages_begin opts snap cur = (s, Some req)" and "api req = Rejected"
  shows "loadMoreMessages opts Date api snap cur = cur\<lparr>isLoadingMore := False\<rparr>"
proof -
  have "s = cur\<lparr>isLoadingMore := True\<rparr>"
    using assms(1) by (auto simp add: loadMoreMessages_begin_def split: option.splits if_splits)
  then show ?thesis
    using assms by (simp add: loadMoreMessages_def loadMoreMessages_settle_def)
qed

theorem loadMore_rejected_keeps_state_witness:
  "loadMoreMessages_begin example_options example_ready example_ready
     = (example_ready\<lparr>isLoadingMore := True\<rparr>, Some (GetMessagesForConversation ''c1'' 1 20))
   \<and> answering Rejected (GetMessagesForConversation ''c1'' 1 20) = (Rejected :: PagedMessagesResponse settled)
   \<and> loadMoreMessages example_options example_Date (answering Rejected) example_ready example_ready
       = example_ready"
proof -
  have a: "loadMoreMessages_begin example_options example_ready example_ready
     = (example_ready\<lparr>isLoadingMore := True\<rparr>, Some (GetMessagesForConversation ''c1'' 1 20))"
    by (simp add: loadMoreMessages_begin_def returns_early_def example_ready_def example_options_def)
  have b: "answering Rejected (GetMessagesForConversation ''c1'' 1 20) = (Rejected :: PagedMessagesResponse settled)"
    by (simp add: answering_def)
  have c: "example_ready\<lparr>isLoadingMore := False\<rparr> = example_ready"
    by (simp add: example_ready_def)
  show ?thesis
    using loadMore_rejected_keeps_state [where api = "answering Rejected" and Date = example_Date, OF a b]
      a b c by simp
qed

end
